theory Spec2Isabelle
  imports Main "HOL-Library.Word"
begin

section \<open>Values shared by the routes\<close>

text \<open>
  A Node \<^verbatim>\<open>Buffer\<close> is a list of bytes. A JavaScript string is a list of UTF-16 code
  units. \<open>js\<close> writes an ASCII literal of the source as such a list.
\<close>

type_synonym byte = "8 word"
type_synonym buffer = "byte list"
type_synonym jsstring = "16 word list"

definition js :: "string \<Rightarrow> jsstring" where
  "js s = map (\<lambda>c. of_nat (of_char c)) s"

text \<open>What the source can throw. Every kind is caught by some \<^verbatim>\<open>catch\<close> of a route.\<close>

datatype error = RangeError | SyntaxError | TypeError | EngineError | SyncError

text \<open>
  \<^verbatim>\<open>String.prototype.trim\<close>: strips the ECMAScript white space and line terminator code
  units from both ends.
\<close>

definition isWhiteSpace :: "16 word \<Rightarrow> bool" where
  "isWhiteSpace u =
     (u \<in> set [0x9, 0xA, 0xB, 0xC, 0xD, 0x20, 0xA0, 0x1680, 0x2028, 0x2029,
                0x202F, 0x205F, 0x3000, 0xFEFF]
      \<or> (0x2000 \<le> u \<and> u \<le> 0x200A))"

definition trim :: "jsstring \<Rightarrow> jsstring" where
  "trim s = rev (dropWhile isWhiteSpace (rev (dropWhile isWhiteSpace s)))"

text \<open>\<^verbatim>\<open>String.prototype.startsWith\<close>.\<close>

definition startsWith :: "jsstring \<Rightarrow> jsstring \<Rightarrow> bool" where
  "startsWith s p = (take (length p) s = p)"

section \<open>The exec stream: \<^verbatim>\<open>execAndParse\<close> (opencode-session/route.ts)\<close>

text \<open>
  \<^verbatim>\<open>Buffer.readUInt32BE(offset)\<close>: the four bytes from \<open>offset\<close>, most significant
  first; a RangeError when they are not all inside the buffer.
\<close>

definition readUInt32BE :: "buffer \<Rightarrow> nat \<Rightarrow> error + nat" where
  "readUInt32BE raw off =
     (if off + 4 \<le> length raw
      then Inr (unat (raw ! off) * 2 ^ 24 + unat (raw ! (off + 1)) * 2 ^ 16
                + unat (raw ! (off + 2)) * 2 ^ 8 + unat (raw ! (off + 3)))
      else Inl RangeError)"

text \<open>
  \<^verbatim>\<open>Buffer.slice(start, end)\<close> for \<open>0 \<le> start \<le> end\<close>: both ends are clamped to the
  buffer. \<^verbatim>\<open>Buffer.slice(start)\<close> runs to the end of the buffer.
\<close>

definition slice :: "buffer \<Rightarrow> nat \<Rightarrow> nat \<Rightarrow> buffer" where
  "slice raw a b = take (b - a) (drop a raw)"

definition sliceFrom :: "buffer \<Rightarrow> nat \<Rightarrow> buffer" where
  "sliceFrom raw a = drop a raw"

text \<open>
  The loop of \<^verbatim>\<open>execAndParse\<close>:
  \<^verbatim>\<open>
  for (let i = 0; i < rawOutput.length; ) {
    if (i + 8 <= rawOutput.length) {
      const size = rawOutput.readUInt32BE(i + 4);
      const content = rawOutput.slice(i + 8, i + 8 + size);
      output += content.toString('utf8');
      i += 8 + size;
    } else {
      output += rawOutput.slice(i).toString('utf8');
      break;
    }
  }
  \<close>
  \<open>toString\<close> is \<^verbatim>\<open>Buffer.toString('utf8')\<close>, a function of the runtime: the loop takes
  it as a parameter. Byte 0 of a header (the stream type) and bytes 1 to 3 are never read.
\<close>

function execLoop ::
  "(buffer \<Rightarrow> jsstring) \<Rightarrow> buffer \<Rightarrow> nat \<Rightarrow> jsstring \<Rightarrow> error + jsstring" where
  "execLoop toString rawOutput i output =
     (if i < length rawOutput then
        (if i + 8 \<le> length rawOutput then
           (case readUInt32BE rawOutput (i + 4) of
              Inl e \<Rightarrow> Inl e
            | Inr size' \<Rightarrow>
                execLoop toString rawOutput (i + 8 + size')
                  (output @ toString (slice rawOutput (i + 8) (i + 8 + size'))))
         else Inr (output @ toString (sliceFrom rawOutput i)))
      else Inr output)"
  by pat_completeness auto
termination
  by (relation "measure (\<lambda>(toString, rawOutput, i, output). length rawOutput - i)") auto

declare execLoop.simps [simp del]

text \<open>
  \<^verbatim>\<open>execAndParse\<close> after the stream has ended: the chunks received are concatenated
  (\<^verbatim>\<open>Buffer.concat(chunks)\<close>), the loop runs from offset 0 with the empty output, and the
  result is trimmed.
\<close>

definition execAndParse :: "(buffer \<Rightarrow> jsstring) \<Rightarrow> buffer list \<Rightarrow> error + jsstring" where
  "execAndParse toString chunks =
     (case execLoop toString (concat chunks) 0 [] of
        Inl e \<Rightarrow> Inl e
      | Inr output \<Rightarrow> Inr (trim output))"

text \<open>
  \<^verbatim>\<open>toString('utf8')\<close> on bytes below 0x80: each byte is the code unit of the same
  value. Closed examples on ASCII input use this decoder; the general theorems hold for
  every decoder.
\<close>

definition ascii :: "buffer \<Rightarrow> jsstring" where
  "ascii bs = map ucast bs"

section \<open>The session probe: \<^verbatim>\<open>GET\<close> (opencode-session/route.ts)\<close>

text \<open>
  A route answers with \<^verbatim>\<open>NextResponse.json(body, {status})\<close>: \<open>ErrorJson n msg\<close> is
  the body \<^verbatim>\<open>{error: msg}\<close> with status \<open>n\<close>, \<open>Json n v\<close> the body \<open>v\<close> with status
  \<open>n\<close> (200 when the source gives none).
\<close>

datatype 'a response = ErrorJson nat string | Json nat 'a

text \<open>
  The rows of the store the routes read. Timestamps are kept by the store and no route
  below computes with them; they are left out.
\<close>

record workspace =
  w_id :: jsstring
  w_userId :: jsstring
  w_status :: jsstring

record environment =
  e_id :: jsstring
  e_userId :: jsstring
  e_name :: jsstring
  e_description :: "jsstring option"
  e_variables :: jsstring

record workspaceEnvironment =
  workspaceId :: jsstring
  environmentId :: jsstring

record db =
  workspaces :: "workspace list"
  environments :: "environment list"
  workspaceEnvironments :: "workspaceEnvironment list"

text \<open>
  The two commands the probe runs in the container, \<^verbatim>\<open>sqliteExec\<close>
  (\<^verbatim>\<open>sqlite3 ... "SELECT id FROM session ORDER BY created_at DESC LIMIT 1;" 2>/dev/null || echo ""\<close>)
  and \<^verbatim>\<open>findExec\<close> (\<^verbatim>\<open>find ... -type d -name "ses_*" | head -1 | xargs -r basename\<close>).
  The container engine is a function from the command to what the exec gives: an error
  thrown by \<^verbatim>\<open>container.exec\<close> or \<^verbatim>\<open>exec.start\<close>, or the attached stream.
\<close>

datatype execCmd = SqliteExec | FindExec

text \<open>
  The attached stream, as \<^verbatim>\<open>execAndParse\<close> sees it: it delivers its chunks and emits
  \<^verbatim>\<open>'end'\<close>, or it emits \<^verbatim>\<open>'error'\<close>, or it does neither.
\<close>

datatype stream = Ends "buffer list" | EmitsError error | NeverEnds

type_synonym engine = "execCmd \<Rightarrow> error + stream"

text \<open>
  What an \<^verbatim>\<open>await\<close> gives. \<open>Settled v\<close>: the promise settled with \<open>v\<close>. \<open>Unsettled\<close>:
  the promise never settles, so nothing after the \<^verbatim>\<open>await\<close> runs and no \<^verbatim>\<open>catch\<close>
  of the awaiting function sees anything; \<open>Unsettled (Some e)\<close> when the error \<open>e\<close> was
  thrown outside the awaiting function (an uncaught exception of the process),
  \<open>Unsettled None\<close> when nothing was thrown.
\<close>

datatype 'a awaited = Settled 'a | Unsettled "error option"

text \<open>What a route does besides answering: the calls it makes and the errors it logs.\<close>

datatype event =
    ExecCalled execCmd
  | SyncCalled jsstring "environment list"
  | ConsoleError error

text \<open>
  \<^verbatim>\<open>await container.exec({Cmd: ...})\<close> followed by \<^verbatim>\<open>await execAndParse(exec)\<close>.
  \<^verbatim>\<open>execAndParse\<close> awaits
  \<^verbatim>\<open>new Promise<void>((resolve) => { stream.on('data', ...); stream.on('end', resolve); })\<close>:
  only \<^verbatim>\<open>'end'\<close> resolves the promise, and it has no \<^verbatim>\<open>reject\<close>. The stream has no
  \<^verbatim>\<open>'error'\<close> listener, so an \<^verbatim>\<open>'error'\<close> event is thrown by the emitter, outside the
  route's \<^verbatim>\<open>try\<close>, and the promise stays pending; it stays pending too when the stream
  never ends.
\<close>

definition runExec ::
  "(buffer \<Rightarrow> jsstring) \<Rightarrow> engine \<Rightarrow> execCmd \<Rightarrow> (error + jsstring) awaited" where
  "runExec toString eng cmd =
     (case eng cmd of
        Inl e \<Rightarrow> Settled (Inl e)
      | Inr (Ends chunks) \<Rightarrow> Settled (execAndParse toString chunks)
      | Inr (EmitsError e) \<Rightarrow> Unsettled (Some e)
      | Inr NeverEnds \<Rightarrow> Unsettled None)"

text \<open>
  The two methods, inside the \<^verbatim>\<open>try\<close>: the value of \<^verbatim>\<open>sessionId\<close> before the final
  match (or the error thrown inside the \<^verbatim>\<open>try\<close>), and the commands run; \<open>Unsettled\<close>
  when an \<^verbatim>\<open>await\<close> of the block never settles. The \<^verbatim>\<open>console.log\<close> lines of the
  route are not events of the model.
\<close>

definition findSessionId ::
  "(buffer \<Rightarrow> jsstring) \<Rightarrow> engine \<Rightarrow> (error + jsstring) awaited \<times> event list" where
  "findSessionId toString eng =
     (case runExec toString eng SqliteExec of
        Unsettled u \<Rightarrow> (Unsettled u, [ExecCalled SqliteExec])
      | Settled (Inl e) \<Rightarrow> (Settled (Inl e), [ExecCalled SqliteExec])
      | Settled (Inr sessionId) \<Rightarrow>
          if sessionId = [] \<or> \<not> startsWith sessionId (js ''ses_'') then
            (case runExec toString eng FindExec of
               Unsettled u \<Rightarrow> (Unsettled u, [ExecCalled SqliteExec, ExecCalled FindExec])
             | Settled (Inl e) \<Rightarrow>
                 (Settled (Inl e), [ExecCalled SqliteExec, ExecCalled FindExec])
             | Settled (Inr findResult) \<Rightarrow>
                 (Settled (Inr (if findResult \<noteq> [] \<and> startsWith findResult (js ''ses_'')
                                then findResult else sessionId)),
                  [ExecCalled SqliteExec, ExecCalled FindExec]))
          else (Settled (Inr sessionId), [ExecCalled SqliteExec]))"

text \<open>
  \<^verbatim>\<open>sessionId?.match(/ses_[a-zA-Z0-9_]+/)\<close>: the regular expression is not anchored, so
  the match is searched from every position, leftmost first; \<open>+\<close> is greedy. The result
  is \<^verbatim>\<open>sessionMatch[0]\<close>, the matched text.
\<close>

definition isTokenChar :: "16 word \<Rightarrow> bool" where
  "isTokenChar u =
     ((0x61 \<le> u \<and> u \<le> 0x7A) \<or> (0x41 \<le> u \<and> u \<le> 0x5A)
      \<or> (0x30 \<le> u \<and> u \<le> 0x39) \<or> u = 0x5F)"

fun matchSessionId :: "jsstring \<Rightarrow> jsstring option" where
  "matchSessionId [] = None"
| "matchSessionId (c # cs) =
     (if startsWith (c # cs) (js ''ses_'') \<and> takeWhile isTokenChar (drop 4 (c # cs)) \<noteq> []
      then Some (js ''ses_'' @ takeWhile isTokenChar (drop 4 (c # cs)))
      else matchSessionId cs)"

text \<open>\<^verbatim>\<open>prisma.workspace.findUnique({where: {id, userId}})\<close>.\<close>

definition findWorkspace :: "db \<Rightarrow> jsstring \<Rightarrow> jsstring \<Rightarrow> workspace option" where
  "findWorkspace d wid uid = find (\<lambda>w. w_id w = wid \<and> w_userId w = uid) (workspaces d)"

text \<open>
  The route. \<open>user\<close> is \<^verbatim>\<open>session?.user?.id\<close> as \<^verbatim>\<open>auth()\<close> gives it. The catch logs
  the error and answers \<^verbatim>\<open>{sessionId: null}\<close>. The result is the response the route
  settles with, or \<open>Unsettled\<close> when it never answers, and the events.
\<close>

definition GET_opencode_session ::
  "(buffer \<Rightarrow> jsstring) \<Rightarrow> jsstring option \<Rightarrow> db \<Rightarrow> engine \<Rightarrow> jsstring
     \<Rightarrow> jsstring option response awaited \<times> event list" where
  "GET_opencode_session toString user d eng wid =
     (case user of
        None \<Rightarrow> (Settled (ErrorJson 401 ''Unauthorized''), [])
      | Some uid \<Rightarrow>
          (case findWorkspace d wid uid of
             None \<Rightarrow> (Settled (ErrorJson 404 ''Workspace not found''), [])
           | Some w \<Rightarrow>
               (case findSessionId toString eng of
                  (Unsettled u, evs) \<Rightarrow> (Unsettled u, evs)
                | (Settled (Inl e), evs) \<Rightarrow> (Settled (Json 200 None), evs @ [ConsoleError e])
                | (Settled (Inr sessionId), evs) \<Rightarrow>
                    (case matchSessionId sessionId of
                       Some m \<Rightarrow> (Settled (Json 200 (Some m)), evs)
                     | None \<Rightarrow> (Settled (Json 200 None), evs)))))"

section \<open>Linking environments to a workspace: \<^verbatim>\<open>PUT\<close> (workspaces/[id]/environments)\<close>

text \<open>
  The store is a value: a query is a function of it, a write returns the new store.
  A table is the list of its rows in the store's order.
  \<^verbatim>\<open>prisma.environment.findMany({where: {id: {in: environmentIds}, userId}})\<close> has no
  \<^verbatim>\<open>orderBy\<close>: it gives the rows of the table that pass the filter, in the table's order.
\<close>

definition findManyEnvironments :: "db \<Rightarrow> jsstring list \<Rightarrow> jsstring \<Rightarrow> environment list" where
  "findManyEnvironments d ids uid =
     filter (\<lambda>e. e_id e \<in> set ids \<and> e_userId e = uid) (environments d)"

text \<open>\<^verbatim>\<open>prisma.workspaceEnvironment.deleteMany({where: {workspaceId}})\<close>.\<close>

definition deleteManyLinks :: "db \<Rightarrow> jsstring \<Rightarrow> db" where
  "deleteManyLinks d wid =
     d\<lparr>workspaceEnvironments := filter (\<lambda>l. workspaceId l \<noteq> wid) (workspaceEnvironments d)\<rparr>"

text \<open>\<^verbatim>\<open>prisma.workspaceEnvironment.createMany({data})\<close>: the rows are appended.\<close>

definition createManyLinks :: "db \<Rightarrow> workspaceEnvironment list \<Rightarrow> db" where
  "createManyLinks d rows = d\<lparr>workspaceEnvironments := workspaceEnvironments d @ rows\<rparr>"

text \<open>
  The request body after \<^verbatim>\<open>const { environmentIds } = await request.json()\<close>: the line
  throws (a SyntaxError on a body that is not JSON, a TypeError on \<^verbatim>\<open>null\<close>), or
  \<^verbatim>\<open>environmentIds\<close> is an array (of ids, which are strings) or it is not.
\<close>

datatype linkBody = Unreadable error | NotAnArray | EnvironmentIds "jsstring list"

text \<open>
  \<^verbatim>\<open>syncEnvironmentToWorkspaces\<close> is imported from \<^verbatim>\<open>@/lib/docker\<close>. For the routes
  it is a call that returns or throws: \<open>None\<close> when it returns, \<open>Some e\<close> when it throws.
\<close>

type_synonym syncFn = "jsstring \<Rightarrow> environment list \<Rightarrow> error option"

text \<open>
  \<^verbatim>\<open>try { await syncEnvironmentToWorkspaces(id, envs) } catch (syncError) { console.error(...) }\<close>:
  the events of one guarded call.
\<close>

definition trySync :: "syncFn \<Rightarrow> jsstring \<Rightarrow> environment list \<Rightarrow> event list" where
  "trySync sync wid envs =
     (case sync wid envs of
        None \<Rightarrow> [SyncCalled wid envs]
      | Some e \<Rightarrow> [SyncCalled wid envs, ConsoleError e])"

text \<open>The fields of an environment the routes send back (all but the owner).\<close>

definition envView :: "environment \<Rightarrow> jsstring \<times> jsstring \<times> jsstring option \<times> jsstring" where
  "envView e = (e_id e, e_name e, e_description e, e_variables e)"

text \<open>
  The route, in the source's order: 401 without a user, 500 from the outer catch when
  reading the body throws, 400 when \<^verbatim>\<open>environmentIds\<close> is not an array, 404 when the workspace is
  not the user's, 403 when the count of the user's environments among the ids differs from
  the count of the ids; then the links of the workspace are deleted, the new ones created,
  the environments fetched again and synced. The result is the response, the store after
  the request and the events.
\<close>

definition PUT_workspace_environments ::
  "syncFn \<Rightarrow> jsstring option \<Rightarrow> db \<Rightarrow> jsstring \<Rightarrow> linkBody
     \<Rightarrow> (jsstring \<times> jsstring \<times> jsstring option \<times> jsstring) list response \<times> db \<times> event list" where
  "PUT_workspace_environments sync user d wid body =
     (case user of
        None \<Rightarrow> (ErrorJson 401 ''Unauthorized'', d, [])
      | Some uid \<Rightarrow>
          (case body of
             Unreadable e \<Rightarrow> (ErrorJson 500 ''Internal server error'', d, [ConsoleError e])
           | NotAnArray \<Rightarrow> (ErrorJson 400 ''environmentIds must be an array'', d, [])
           | EnvironmentIds environmentIds \<Rightarrow>
               (case findWorkspace d wid uid of
                  None \<Rightarrow> (ErrorJson 404 ''Workspace not found'', d, [])
                | Some w \<Rightarrow>
                    if length environmentIds > 0
                       \<and> length (findManyEnvironments d environmentIds uid) \<noteq> length environmentIds
                    then (ErrorJson 403 ''One or more environments not found or not owned by user'', d, [])
                    else
                      let d1 = deleteManyLinks d wid;
                          d2 = (if length environmentIds > 0
                                then createManyLinks d1
                                       (map (\<lambda>envId. \<lparr>workspaceId = wid, environmentId = envId\<rparr>)
                                          environmentIds)
                                else d1);
                          environmentsToSync = findManyEnvironments d2 environmentIds uid
                      in (Json 200 (map envView environmentsToSync), d2,
                          trySync sync wid environmentsToSync))))"

section \<open>Updating an environment: \<^verbatim>\<open>PUT\<close> (environments/[id])\<close>

text \<open>
  A value of the request body or of \<^verbatim>\<open>JSON.parse\<close>. An object is the list of its own
  properties in property order. No definition reads the value of a number.
\<close>

datatype jsval =
    Undefined
  | Null
  | Bool bool
  | Num int
  | Str jsstring
  | Arr "jsval list"
  | Obj "(jsstring \<times> jsval) list"











section \<open>Readers of the variables payload\<close>

text \<open>
  \<^verbatim>\<open>Object.keys(v).length\<close>: a TypeError on \<^verbatim>\<open>null\<close> and \<^verbatim>\<open>undefined\<close>, the count of
  the own enumerable properties otherwise.
\<close>

fun keysLength :: "jsval \<Rightarrow> error + nat" where
  "keysLength Undefined = Inl TypeError"
| "keysLength Null = Inl TypeError"
| "keysLength (Bool b) = Inr 0"
| "keysLength (Num n) = Inr 0"
| "keysLength (Str s) = Inr (length s)"
| "keysLength (Arr xs) = Inr (length xs)"
| "keysLength (Obj kvs) = Inr (length kvs)"

text \<open>
  \<^verbatim>\<open>Object.entries(v)\<close>: the keys of a string and of an array are their indices, written
  by \<^verbatim>\<open>String\<close>, which is a parameter.
\<close>

fun objectEntries :: "(jsval \<Rightarrow> jsstring) \<Rightarrow> jsval \<Rightarrow> error + (jsstring \<times> jsval) list" where
  "objectEntries toStr Undefined = Inl TypeError"
| "objectEntries toStr Null = Inl TypeError"
| "objectEntries toStr (Bool b) = Inr []"
| "objectEntries toStr (Num n) = Inr []"
| "objectEntries toStr (Str s) =
     Inr (zip (map (\<lambda>i. toStr (Num (int i))) [0..<length s]) (map (\<lambda>u. Str [u]) s))"
| "objectEntries toStr (Arr xs) =
     Inr (zip (map (\<lambda>i. toStr (Num (int i))) [0..<length xs]) xs)"
| "objectEntries toStr (Obj kvs) = Inr kvs"

record variableEntry =
  ve_key :: jsstring
  ve_value :: jsstring

text \<open>
  \<^verbatim>\<open>parseVariables\<close> (EnvironmentsClient): the entries of the parsed payload, and the
  empty list when anything in the \<^verbatim>\<open>try\<close> throws.
\<close>

definition parseVariables ::
  "(jsstring \<Rightarrow> error + jsval) \<Rightarrow> (jsval \<Rightarrow> jsstring) \<Rightarrow> jsstring \<Rightarrow> variableEntry list" where
  "parseVariables parse toStr variablesJson =
     (case parse variablesJson of
        Inl e \<Rightarrow> []
      | Inr parsed \<Rightarrow>
          (case objectEntries toStr parsed of
             Inl e \<Rightarrow> []
           | Inr entries \<Rightarrow> map (\<lambda>(k, v). \<lparr>ve_key = k, ve_value = toStr v\<rparr>) entries))"

text \<open>
  \<^verbatim>\<open>getVariableCount\<close> (CreateWorkspaceDialog, twice the same):
  \<^verbatim>\<open>try { return Object.keys(JSON.parse(env.variables)).length } catch { return 0 }\<close>.
\<close>

definition getVariableCount :: "(jsstring \<Rightarrow> error + jsval) \<Rightarrow> environment \<Rightarrow> nat" where
  "getVariableCount parse env =
     (case parse (e_variables env) of
        Inl e \<Rightarrow> 0
      | Inr v \<Rightarrow> (case keysLength v of Inl e \<Rightarrow> 0 | Inr n \<Rightarrow> n))"

text \<open>
  The count shown on an environment's card (EnvironmentsClient):
  \<^verbatim>\<open>{Object.keys(JSON.parse(env.variables || '{}')).length} variables\<close>. The expression
  stands in the render with no \<^verbatim>\<open>try\<close> around it: what it throws leaves the component.
\<close>

definition cardVariableCount :: "(jsstring \<Rightarrow> error + jsval) \<Rightarrow> environment \<Rightarrow> error + nat" where
  "cardVariableCount parse env =
     (case parse (if e_variables env = [] then js ''{}'' else e_variables env) of
        Inl e \<Rightarrow> Inl e
      | Inr v \<Rightarrow> keysLength v)"

section \<open>The environment merge\<close>

text \<open>
  Modelled from the spec: the merge of \<^verbatim>\<open>syncEnvironmentToWorkspaces\<close> (\<^verbatim>\<open>@/lib/docker\<close>),
  which is not among the sources. The spec's contract is
  \<^verbatim>\<open>merge(orderedEnvironments: Sequence<{name, variables: Map<string,string>}>) -> Map<string,string>\<close>:
  start from an empty mapping; for each environment in the given order, overwrite each
  key present in its variable map.
\<close>

record variableSet =
  vs_name :: jsstring
  vs_variables :: "jsstring \<rightharpoonup> jsstring"

definition merge :: "variableSet list \<Rightarrow> (jsstring \<rightharpoonup> jsstring)" where
  "merge orderedEnvironments =
     fold (\<lambda>env acc. acc ++ vs_variables env) orderedEnvironments Map.empty"

section \<open>The stream framing, as the interface states it\<close>

text \<open>
  A frame of the multiplexed stream: an 8-byte header (byte 0 the stream type, bytes 1 to
  3 zero, bytes 4 to 7 the payload length, big-endian) and the payload. These definitions
  state what the engine sends; the route's reader is \<open>execAndParse\<close> above.
\<close>

record frame =
  streamType :: byte
  payload :: buffer

definition header :: "byte \<Rightarrow> nat \<Rightarrow> buffer" where
  "header t n =
     [t, 0, 0, 0, of_nat (n div 2 ^ 24), of_nat (n div 2 ^ 16), of_nat (n div 2 ^ 8), of_nat n]"

definition encodeFrames :: "frame list \<Rightarrow> buffer" where
  "encodeFrames fs = concat (map (\<lambda>f. header (streamType f) (length (payload f)) @ payload f) fs)"

text \<open>
  The extraction as the spec words it: the payloads of the frames whose stream type is
  selected, in frame order.
\<close>

definition payloadsOfTypes :: "(byte \<Rightarrow> bool) \<Rightarrow> frame list \<Rightarrow> buffer" where
  "payloadsOfTypes sel fs = concat (map payload (filter (\<lambda>f. sel (streamType f)) fs))"

text \<open>The session id format as the spec words it: \<^verbatim>\<open>ses_\<close> and one or more token characters.\<close>

definition isSessionId :: "jsstring \<Rightarrow> bool" where
  "isSessionId s =
     (startsWith s (js ''ses_'') \<and> drop 4 s \<noteq> [] \<and> list_all isTokenChar (drop 4 s))"

section \<open>Example data\<close>

text \<open>
  The bytes of an ASCII text, the stream of a command that writes \<open>p\<close> to stdout in one
  frame, and a store: user \<open>u1\<close> has the workspaces \<open>w1\<close> (running) and \<open>w2\<close> (stopped)
  and the environments \<open>envA\<close> and \<open>envB\<close>, in this order in the table; \<open>envC\<close> is
  another user's; \<open>envA\<close> is linked to both workspaces.
\<close>

definition asciiBytes :: "string \<Rightarrow> buffer" where
  "asciiBytes s = map (\<lambda>c. of_nat (of_char c)) s"

definition stdoutChunks :: "buffer \<Rightarrow> buffer list" where
  "stdoutChunks p = [encodeFrames [\<lparr>streamType = 1, payload = p\<rparr>]]"

definition envA :: environment where
  "envA = \<lparr>e_id = js ''envA'', e_userId = js ''u1'', e_name = js ''A'',
            e_description = None, e_variables = js ''{}''\<rparr>"

definition envB :: environment where
  "envB = \<lparr>e_id = js ''envB'', e_userId = js ''u1'', e_name = js ''B'',
            e_description = None, e_variables = js ''{}''\<rparr>"

definition envC :: environment where
  "envC = \<lparr>e_id = js ''envC'', e_userId = js ''u2'', e_name = js ''C'',
            e_description = None, e_variables = js ''{}''\<rparr>"

definition exampleDb :: db where
  "exampleDb =
     \<lparr>workspaces = [\<lparr>w_id = js ''w1'', w_userId = js ''u1'', w_status = js ''running''\<rparr>,
                    \<lparr>w_id = js ''w2'', w_userId = js ''u1'', w_status = js ''stopped''\<rparr>],
      environments = [envA, envB, envC],
      workspaceEnvironments = [\<lparr>workspaceId = js ''w1'', environmentId = js ''envA''\<rparr>,
                               \<lparr>workspaceId = js ''w2'', environmentId = js ''envA''\<rparr>]\<rparr>"

section \<open>Reading a framed stream\<close>

text \<open>The four length bytes of a header, read most significant first, give the length back.\<close>

lemma be32_bytes:
  assumes "n < 2 ^ 32"
  shows "unat (of_nat (n div 2 ^ 24) :: 8 word) * 2 ^ 24 + unat (of_nat (n div 2 ^ 16) :: 8 word) * 2 ^ 16
   + unat (of_nat (n div 2 ^ 8) :: 8 word) * 2 ^ 8 + unat (of_nat n :: 8 word) = n"
proof -
  define q1 where "q1 = n div 256"
  define q2 where "q2 = q1 div 256"
  define q3 where "q3 = q2 div 256"
  have d1: "n div 256 = q1" by (simp add: q1_def)
  have d2: "n div 65536 = q2"
    unfolding q2_def q1_def by (simp add: div_mult2_eq[symmetric])
  have d3: "n div 16777216 = q3"
    unfolding q3_def q2_def q1_def by (simp add: div_mult2_eq[symmetric])
  have e0: "n = q1 * 256 + n mod 256" unfolding q1_def by simp
  have e1: "q1 = q2 * 256 + q1 mod 256" unfolding q2_def by simp
  have e2: "q2 = q3 * 256 + q2 mod 256" unfolding q3_def by simp
  have "q3 < 256" using assms unfolding d3[symmetric] by (simp add: less_mult_imp_div_less)
  then have e3: "q3 mod 256 = q3" by simp
  have "q3 * 2 ^ 24 + (q2 mod 256) * 2 ^ 16 + (q1 mod 256) * 2 ^ 8 + n mod 256 = n"
    using e0 e1 e2 by simp
  then show ?thesis
    by (simp add: unat_of_nat d1 d2 d3 e3)
qed

lemma read_header:
  assumes "n < 2 ^ 32"
  shows "readUInt32BE (pre @ header t n @ rest) (length pre + 4) = Inr n"
  using be32_bytes[OF assms]
  by (simp add: readUInt32BE_def header_def nth_append)

text \<open>
  The loop, started at a frame boundary with any output so far: it appends the decoded
  payload of every frame, whatever the frame's type, and the decoded rest of fewer than 8
  bytes, if there is one.
\<close>

lemma execLoop_frames:
  "\<forall>f\<in>set fs. length (payload f) < 2 ^ 32 \<Longrightarrow> length tail < 8 \<Longrightarrow>
   execLoop toString (pre @ encodeFrames fs @ tail) (length pre) out =
     Inr (out @ concat (map (\<lambda>f. toString (payload f)) fs) @ (if tail = [] then [] else toString tail))"
proof (induction fs arbitrary: pre out)
  case Nil
  then show ?case
    by (subst execLoop.simps) (simp add: encodeFrames_def sliceFrom_def)
next
  case (Cons f fs)
  let ?n = "length (payload f)"
  let ?h = "header (streamType f) ?n"
  let ?rest = "payload f @ encodeFrames fs @ tail"
  have n: "?n < 2 ^ 32" using Cons.prems by simp
  have raw: "pre @ encodeFrames (f # fs) @ tail = pre @ ?h @ ?rest"
    by (simp add: encodeFrames_def)
  have hl: "length ?h = 8" by (simp add: header_def)
  have rd: "readUInt32BE (pre @ ?h @ ?rest) (length pre + 4) = Inr ?n"
    by (rule read_header[OF n])
  have sl: "slice (pre @ ?h @ ?rest) (length pre + 8) (length pre + 8 + ?n) = payload f"
    using hl by (simp add: slice_def)
  have lt: "length pre < length (pre @ ?h @ ?rest)" using hl by simp
  have le: "length pre + 8 \<le> length (pre @ ?h @ ?rest)" using hl by simp
  have step: "execLoop toString (pre @ ?h @ ?rest) (length pre) out =
              execLoop toString (pre @ ?h @ ?rest) (length pre + 8 + ?n) (out @ toString (payload f))"
    by (subst execLoop.simps) (simp only: lt le rd sl if_True sum.case)
  have len: "length (pre @ ?h @ payload f) = length pre + 8 + ?n" using hl by simp
  have "execLoop toString ((pre @ ?h @ payload f) @ encodeFrames fs @ tail)
              (length (pre @ ?h @ payload f)) (out @ toString (payload f)) =
            Inr ((out @ toString (payload f)) @ concat (map (\<lambda>f. toString (payload f)) fs)
                 @ (if tail = [] then [] else toString tail))"
    using Cons.prems by (intro Cons.IH) simp_all
  then have ih: "execLoop toString (pre @ ?h @ ?rest) (length pre + 8 + ?n) (out @ toString (payload f)) =
            Inr ((out @ toString (payload f)) @ concat (map (\<lambda>f. toString (payload f)) fs)
                 @ (if tail = [] then [] else toString tail))"
    by (simp only: len append_assoc)
  show ?case
    unfolding raw step ih by simp
qed

text \<open>
  C1 (as amended). On a stream that is a sequence of frames (each payload shorter than
  2^32 bytes) followed by fewer than 8 further bytes, \<open>execAndParse\<close> returns, trimmed, the
  decoded payloads of all frames in frame order, whatever their stream types (byte 0 of a
  header is never read), followed by the decoded trailing bytes. There is one extraction
  only, the combined one.
\<close>

theorem C1_execAndParse_all_frames:
  assumes "\<forall>f\<in>set fs. length (payload f) < 2 ^ 32" "length tail < 8"
    "concat chunks = encodeFrames fs @ tail"
  shows "execAndParse toString chunks =
     Inr (trim (concat (map (\<lambda>f. toString (payload f)) fs)
                @ (if tail = [] then [] else toString tail)))"
proof -
  have "execLoop toString ([] @ encodeFrames fs @ tail) (length ([] :: buffer)) [] =
     Inr ([] @ concat (map (\<lambda>f. toString (payload f)) fs)
          @ (if tail = [] then [] else toString tail))"
    by (rule execLoop_frames[OF assms(1,2)])
  then have "execLoop toString (concat chunks) 0 [] =
     Inr (concat (map (\<lambda>f. toString (payload f)) fs)
          @ (if tail = [] then [] else toString tail))"
    by (simp only: assms(3) append_Nil list.size)
  then show ?thesis
    by (simp only: execAndParse_def sum.case)
qed

text \<open>
  The spec's example, \<open>[01 00 00 00 00 00 00 05] "hello" [02 00 00 00 00 00 00 03] "bad"\<close>,
  received in two chunks: the result is \<open>"hellobad"\<close>.
\<close>

theorem C1_execAndParse_all_frames_witness:
  "execAndParse ascii
     [[1, 0, 0, 0, 0, 0, 0, 5, 0x68, 0x65, 0x6C, 0x6C, 0x6F, 2, 0, 0, 0],
      [0, 0, 0, 3, 0x62, 0x61, 0x64]]
   = Inr (js ''hellobad'')"
  using C1_execAndParse_all_frames
    [of "[\<lparr>streamType = 1, payload = [0x68, 0x65, 0x6C, 0x6C, 0x6F]\<rparr>,
          \<lparr>streamType = 2, payload = [0x62, 0x61, 0x64]\<rparr>]" "[]"
        "[[1, 0, 0, 0, 0, 0, 0, 5, 0x68, 0x65, 0x6C, 0x6C, 0x6F, 2, 0, 0, 0],
          [0, 0, 0, 3, 0x62, 0x61, 0x64]]" ascii]
  by (simp add: encodeFrames_def header_def ascii_def js_def trim_def isWhiteSpace_def)

text \<open>
  C1 as stated fails: the payload of a frame of type 3 is not ignored (the result differs
  from the stdout-and-stderr payloads), and on the spec's example the result is not the
  stdout payload \<open>"hello"\<close>.
\<close>

theorem C1_other_types_not_ignored:
  "execAndParse ascii [encodeFrames [\<lparr>streamType = 3, payload = [0x78]\<rparr>]]
     \<noteq> Inr (trim (ascii (payloadsOfTypes (\<lambda>t. t = 1 \<or> t = 2)
                              [\<lparr>streamType = 3, payload = [0x78]\<rparr>])))
   \<and> execAndParse ascii [encodeFrames [\<lparr>streamType = 3, payload = [0x78]\<rparr>]] = Inr (js ''x'')
   \<and> execAndParse ascii
         [encodeFrames [\<lparr>streamType = 1, payload = [0x68, 0x65, 0x6C, 0x6C, 0x6F]\<rparr>,
                        \<lparr>streamType = 2, payload = [0x62, 0x61, 0x64]\<rparr>]]
       \<noteq> Inr (js ''hello'')"
  by (simp add: execLoop.simps execAndParse_def readUInt32BE_def slice_def sliceFrom_def
        ascii_def js_def trim_def isWhiteSpace_def encodeFrames_def header_def
        payloadsOfTypes_def)

section \<open>The session probe\<close>

text \<open>The guarded read of the length never fails: the loop always returns.\<close>

lemma execLoop_returns: "\<exists>out'. execLoop toString raw i out = Inr out'"
proof (induction toString raw i out rule: execLoop.induct)
  case (1 toString rawOutput i out)
  show ?case
  proof (cases "i < length rawOutput \<and> i + 8 \<le> length rawOutput")
    case True
    then have rd: "readUInt32BE rawOutput (i + 4) = Inr (unat (rawOutput ! (i + 4)) * 2 ^ 24 + unat (rawOutput ! (i + 4 + 1)) * 2 ^ 16
                + unat (rawOutput ! (i + 4 + 2)) * 2 ^ 8 + unat (rawOutput ! (i + 4 + 3)))"
      by (simp add: readUInt32BE_def)
    show ?thesis
      using True "1.IH"[OF _ _ rd]
      by (subst execLoop.simps) (simp add: rd)
  next
    case False
    then show ?thesis
      by (subst execLoop.simps) auto
  qed
qed

lemma execAndParse_returns: "\<exists>s. execAndParse toString chunks = Inr s"
  using execLoop_returns[of toString "concat chunks" 0 "[]"]
  by (auto simp: execAndParse_def)

text \<open>
  The match: what it returns has the session id form, stands in the string and is not
  followed by a further token character; a string that contains a text of that form has
  a match; a string of that form is its own match.
\<close>

lemma length_ses [simp]: "length (js ''ses_'') = 4"
  by (simp add: js_def)

lemma matchSessionId_Some:
  "matchSessionId s = Some m \<Longrightarrow>
     isSessionId m \<and> (\<exists>pre post. s = pre @ m @ post \<and> (post = [] \<or> \<not> isTokenChar (hd post)))"
proof (induction s)
  case Nil
  then show ?case by simp
next
  case (Cons c cs)
  show ?case
  proof (cases "startsWith (c # cs) (js ''ses_'') \<and> takeWhile isTokenChar (drop 4 (c # cs)) \<noteq> []")
    case True
    let ?t = "takeWhile isTokenChar (drop 4 (c # cs))"
    let ?p = "dropWhile isTokenChar (drop 4 (c # cs))"
    from True Cons.prems have m: "m = js ''ses_'' @ ?t" by simp
    have pre: "take 4 (c # cs) = js ''ses_''" using True by (simp add: startsWith_def)
    have "c # cs = take 4 (c # cs) @ drop 4 (c # cs)" by (simp only: append_take_drop_id)
    also have "\<dots> = js ''ses_'' @ ?t @ ?p" by (simp only: pre takeWhile_dropWhile_id)
    finally have split: "c # cs = [] @ m @ ?p" by (simp add: m)
    have form: "isSessionId m"
      using True by (simp add: m isSessionId_def startsWith_def list_all_iff) (meson set_takeWhileD)
    have "?p = [] \<or> \<not> isTokenChar (hd ?p)"
      by (metis hd_dropWhile)
    with split form show ?thesis by blast
  next
    case False
    with Cons.prems have "matchSessionId cs = Some m" by auto
    from Cons.IH[OF this] obtain pre post where
      "isSessionId m" "cs = pre @ m @ post" "post = [] \<or> \<not> isTokenChar (hd post)" by blast
    then have "c # cs = (c # pre) @ m @ post" by simp
    with \<open>isSessionId m\<close> \<open>post = [] \<or> \<not> isTokenChar (hd post)\<close> show ?thesis by blast
  qed
qed

lemma matchSessionId_substring:
  "isSessionId m \<Longrightarrow> matchSessionId (pre @ m @ post) \<noteq> None"
proof (induction pre)
  case Nil
  let ?t = "drop 4 m"
  from Nil have st: "take 4 m = js ''ses_''" and ne: "?t \<noteq> []" and tok: "list_all isTokenChar ?t"
    by (simp_all add: isSessionId_def startsWith_def)
  have len: "4 < length m" using ne by simp
  then obtain c cs where mcs: "m @ post = c # cs" by (cases m) auto
  have a: "startsWith (m @ post) (js ''ses_'')" using st len by (simp add: startsWith_def)
  have "drop 4 (m @ post) = ?t @ post" using len by simp
  moreover have "isTokenChar (hd ?t)" using ne tok by (cases ?t) simp_all
  ultimately have b: "takeWhile isTokenChar (drop 4 (m @ post)) \<noteq> []"
    using ne by (cases ?t) simp_all
  show ?case using a b unfolding append_Nil mcs by simp
next
  case (Cons p ps)
  then show ?case by simp
qed

lemma matchSessionId_unfold:
  "s \<noteq> [] \<Longrightarrow> matchSessionId s =
     (if startsWith s (js ''ses_'') \<and> takeWhile isTokenChar (drop 4 s) \<noteq> []
      then Some (js ''ses_'' @ takeWhile isTokenChar (drop 4 s))
      else matchSessionId (tl s))"
  by (cases s) (simp_all only: matchSessionId.simps list.sel, simp)

lemma matchSessionId_exact:
  assumes "isSessionId s" shows "matchSessionId s = Some s"
proof -
  let ?t = "drop 4 s"
  from assms have st: "take 4 s = js ''ses_''" and ne: "?t \<noteq> []" and tok: "list_all isTokenChar ?t"
    by (simp_all add: isSessionId_def startsWith_def)
  have s: "s \<noteq> []" using ne by auto
  have tw: "takeWhile isTokenChar ?t = ?t" using tok by (simp add: list_all_iff)
  have whole: "js ''ses_'' @ ?t = s" using st by (metis append_take_drop_id)
  have sw: "startsWith s (js ''ses_'')" using st by (simp add: startsWith_def)
  show ?thesis
    by (simp only: matchSessionId_unfold[OF s] sw tw ne whole simp_thms if_True)
qed

text \<open>The definitions that evaluate the closed examples.\<close>

lemmas example_defs = asciiBytes_def stdoutChunks_def exampleDb_def encodeFrames_def header_def
  execLoop.simps execAndParse_def readUInt32BE_def slice_def sliceFrom_def
  ascii_def js_def trim_def isWhiteSpace_def findWorkspace_def runExec_def startsWith_def
  isTokenChar_def

lemma example_w1:
  "findWorkspace exampleDb (js ''w1'') (js ''u1'')
     = Some \<lparr>w_id = js ''w1'', w_userId = js ''u1'', w_status = js ''running''\<rparr>"
  by (simp add: findWorkspace_def exampleDb_def)

text \<open>The route for a signed-in user who owns the workspace.\<close>

lemma GET_owned:
  assumes "findWorkspace d wid uid = Some w"
  shows "GET_opencode_session toString (Some uid) d eng wid =
     (case findSessionId toString eng of
        (Unsettled u, evs) \<Rightarrow> (Unsettled u, evs)
      | (Settled (Inl e), evs) \<Rightarrow> (Settled (Json 200 None), evs @ [ConsoleError e])
      | (Settled (Inr sessionId), evs) \<Rightarrow> (Settled (Json 200 (matchSessionId sessionId)), evs))"
  using assms
  by (simp add: GET_opencode_session_def
        split: prod.splits sum.splits option.splits awaited.splits)

text \<open>
  C2 (as amended). For the owner of the workspace: when the SQLite command runs, its
  stream ends and its output, parsed and trimmed, is empty or does not start with \<open>ses_\<close>,
  the \<open>find\<close> command is run next, before the result is decided. When the SQLite exec
  throws, the \<open>find\<close> command is not run: the catch logs the error and the probe answers
  \<open>{sessionId: null}\<close>.
\<close>

theorem C2_fallback_on_invalid_output:
  assumes "findWorkspace d wid uid = Some w"
  shows "(eng SqliteExec = Inr (Ends chunks) \<and> execAndParse toString chunks = Inr s
            \<and> (s = [] \<or> \<not> startsWith s (js ''ses_''))
          \<longrightarrow> take 2 (snd (GET_opencode_session toString (Some uid) d eng wid))
                = [ExecCalled SqliteExec, ExecCalled FindExec])
       \<and> (eng SqliteExec = Inl e
          \<longrightarrow> GET_opencode_session toString (Some uid) d eng wid
                = (Settled (Json 200 None), [ExecCalled SqliteExec, ConsoleError e]))"
  unfolding GET_owned[OF assms]
  by (auto simp: findSessionId_def runExec_def split: sum.splits stream.splits awaited.splits)

text \<open>
  The SQLite command prints an empty line and \<open>find\<close> is run; the SQLite exec throws and
  \<open>find\<close> is not run.
\<close>

theorem C2_fallback_on_invalid_output_witness:
  "take 2 (snd (GET_opencode_session ascii (Some (js ''u1'')) exampleDb
      (\<lambda>c. case c of
              SqliteExec \<Rightarrow> Inr (Ends (stdoutChunks [0x0A]))
            | FindExec \<Rightarrow> Inr (Ends (stdoutChunks (asciiBytes ''ses_ab12'' @ [0x0A]))))
      (js ''w1'')))
     = [ExecCalled SqliteExec, ExecCalled FindExec]
   \<and> GET_opencode_session ascii (Some (js ''u1'')) exampleDb
       (\<lambda>c. case c of
               SqliteExec \<Rightarrow> Inl EngineError
             | FindExec \<Rightarrow> Inr (Ends (stdoutChunks (asciiBytes ''ses_ab12'' @ [0x0A]))))
       (js ''w1'')
     = (Settled (Json 200 None), [ExecCalled SqliteExec, ConsoleError EngineError])"
proof -
  have p: "execAndParse ascii (stdoutChunks [0x0A]) = Inr []"
    by (simp add: example_defs)
  show ?thesis
    using C2_fallback_on_invalid_output[OF example_w1, where toString = ascii
             and chunks = "stdoutChunks [0x0A]" and s = "[]"
             and eng = "\<lambda>c. case c of
                 SqliteExec \<Rightarrow> Inr (Ends (stdoutChunks [0x0A]))
               | FindExec \<Rightarrow> Inr (Ends (stdoutChunks (asciiBytes ''ses_ab12'' @ [0x0A])))"]
          C2_fallback_on_invalid_output[OF example_w1, where toString = ascii
             and e = EngineError
             and eng = "\<lambda>c. case c of
                 SqliteExec \<Rightarrow> Inl EngineError
               | FindExec \<Rightarrow> Inr (Ends (stdoutChunks (asciiBytes ''ses_ab12'' @ [0x0A])))"]
    by (simp add: p)
qed

text \<open>
  C2 as stated fails where the primary strategy throws: the fallback, which would have
  found \<open>ses_ab12\<close>, is not attempted, and the probe answers \<open>{sessionId: null}\<close>.
\<close>

theorem C2_no_fallback_after_throw:
  "ExecCalled FindExec \<notin> set (snd (GET_opencode_session ascii (Some (js ''u1'')) exampleDb
       (\<lambda>c. case c of
               SqliteExec \<Rightarrow> Inl EngineError
             | FindExec \<Rightarrow> Inr (Ends (stdoutChunks (asciiBytes ''ses_ab12'' @ [0x0A]))))
       (js ''w1'')))
   \<and> fst (GET_opencode_session ascii (Some (js ''u1'')) exampleDb
       (\<lambda>c. case c of
               SqliteExec \<Rightarrow> Inl EngineError
             | FindExec \<Rightarrow> Inr (Ends (stdoutChunks (asciiBytes ''ses_ab12'' @ [0x0A]))))
       (js ''w1'')) = Settled (Json 200 None)"
  by (simp add: GET_opencode_session_def findSessionId_def example_defs)

text \<open>
  C3 (the code differs). For the owner of an existing workspace, an error of the engine
  that arrives as an \<^verbatim>\<open>'error'\<close> event of the attached stream, in the first strategy or
  in the second, is not caught: it is thrown outside the \<^verbatim>\<open>try\<close>, nothing is logged by
  the route and the route never answers. An error thrown by \<^verbatim>\<open>container.exec\<close> or
  \<^verbatim>\<open>exec.start\<close> in either strategy is caught and logged, and the answer is
  \<open>{sessionId: null}\<close>.
\<close>

theorem C3_stream_error_not_caught:
  assumes "findWorkspace d wid uid = Some w"
  shows "(eng SqliteExec = Inr (EmitsError e)
          \<longrightarrow> GET_opencode_session toString (Some uid) d eng wid
                = (Unsettled (Some e), [ExecCalled SqliteExec]))
       \<and> (eng SqliteExec = Inr (Ends chunks) \<and> execAndParse toString chunks = Inr s
            \<and> (s = [] \<or> \<not> startsWith s (js ''ses_'')) \<and> eng FindExec = Inr (EmitsError e)
          \<longrightarrow> GET_opencode_session toString (Some uid) d eng wid
                = (Unsettled (Some e), [ExecCalled SqliteExec, ExecCalled FindExec]))
       \<and> (eng SqliteExec = Inl e
          \<longrightarrow> GET_opencode_session toString (Some uid) d eng wid
                = (Settled (Json 200 None), [ExecCalled SqliteExec, ConsoleError e]))
       \<and> (eng SqliteExec = Inr (Ends chunks) \<and> execAndParse toString chunks = Inr s
            \<and> (s = [] \<or> \<not> startsWith s (js ''ses_'')) \<and> eng FindExec = Inl e
          \<longrightarrow> GET_opencode_session toString (Some uid) d eng wid
                = (Settled (Json 200 None),
                   [ExecCalled SqliteExec, ExecCalled FindExec, ConsoleError e]))"
  unfolding GET_owned[OF assms]
  by (auto simp: findSessionId_def runExec_def split: sum.splits stream.splits awaited.splits)

text \<open>
  The stream of the SQLite exec emits \<^verbatim>\<open>'error'\<close>: no answer. The first command prints an
  empty line and the second exec throws: the answer is \<open>{sessionId: null}\<close>.
\<close>

theorem C3_stream_error_not_caught_witness:
  "GET_opencode_session ascii (Some (js ''u1'')) exampleDb
       (\<lambda>c. case c of
               SqliteExec \<Rightarrow> Inr (EmitsError EngineError)
             | FindExec \<Rightarrow> Inr (Ends (stdoutChunks (asciiBytes ''ses_ab12'' @ [0x0A]))))
       (js ''w1'')
     = (Unsettled (Some EngineError), [ExecCalled SqliteExec])
   \<and> GET_opencode_session ascii (Some (js ''u1'')) exampleDb
       (\<lambda>c. case c of
               SqliteExec \<Rightarrow> Inr (Ends (stdoutChunks [0x0A]))
             | FindExec \<Rightarrow> Inl EngineError)
       (js ''w1'')
     = (Settled (Json 200 None),
        [ExecCalled SqliteExec, ExecCalled FindExec, ConsoleError EngineError])"
proof -
  have p: "execAndParse ascii (stdoutChunks [0x0A]) = Inr []"
    by (simp add: example_defs)
  show ?thesis
    using C3_stream_error_not_caught[OF example_w1, where toString = ascii
             and e = EngineError
             and eng = "\<lambda>c. case c of
                 SqliteExec \<Rightarrow> Inr (EmitsError EngineError)
               | FindExec \<Rightarrow> Inr (Ends (stdoutChunks (asciiBytes ''ses_ab12'' @ [0x0A])))"]
          C3_stream_error_not_caught[OF example_w1, where toString = ascii
             and e = EngineError and chunks = "stdoutChunks [0x0A]" and s = "[]"
             and eng = "\<lambda>c. case c of
                 SqliteExec \<Rightarrow> Inr (Ends (stdoutChunks [0x0A]))
               | FindExec \<Rightarrow> Inl EngineError"]
    by (simp add: p)
qed

text \<open>
  C4 (as amended). When no exec throws and the streams end, the probe answers with the
  match of the unanchored pattern \<open>ses_[a-zA-Z0-9_]+\<close> in the candidate string: a text of
  the session id form that stands in the candidate and is not followed by a further token
  character, so possibly a proper part of the candidate; the candidate itself when it has
  the form; and \<open>null\<close> exactly when no part of the candidate has the form.
\<close>

theorem C4_probe_returns_pattern_match:
  assumes "findWorkspace d wid uid = Some w"
    and "findSessionId toString eng = (Settled (Inr cand), evs)"
  shows "GET_opencode_session toString (Some uid) d eng wid
           = (Settled (Json 200 (matchSessionId cand)), evs)
       \<and> (\<forall>m. matchSessionId cand = Some m \<longrightarrow>
             isSessionId m \<and> (\<exists>pre post. cand = pre @ m @ post \<and> (post = [] \<or> \<not> isTokenChar (hd post))))
       \<and> (isSessionId cand \<longrightarrow> matchSessionId cand = Some cand)
       \<and> (matchSessionId cand = None \<longleftrightarrow> \<not> (\<exists>pre m post. cand = pre @ m @ post \<and> isSessionId m))"
proof (intro conjI allI impI)
  show "GET_opencode_session toString (Some uid) d eng wid
          = (Settled (Json 200 (matchSessionId cand)), evs)"
    unfolding GET_owned[OF assms(1)] assms(2) by simp
next
  fix m assume "matchSessionId cand = Some m"
  from matchSessionId_Some[OF this]
  show "isSessionId m" and "\<exists>pre post. cand = pre @ m @ post \<and> (post = [] \<or> \<not> isTokenChar (hd post))"
    by blast+
next
  assume "isSessionId cand" then show "matchSessionId cand = Some cand"
    by (rule matchSessionId_exact)
next
  show "matchSessionId cand = None \<longleftrightarrow> \<not> (\<exists>pre m post. cand = pre @ m @ post \<and> isSessionId m)"
  proof
    assume n: "matchSessionId cand = None"
    show "\<not> (\<exists>pre m post. cand = pre @ m @ post \<and> isSessionId m)"
    proof
      assume "\<exists>pre m post. cand = pre @ m @ post \<and> isSessionId m"
      then obtain pre m post where "cand = pre @ m @ post" "isSessionId m" by blast
      with matchSessionId_substring[of m pre post] n show False by simp
    qed
  next
    assume a: "\<not> (\<exists>pre m post. cand = pre @ m @ post \<and> isSessionId m)"
    show "matchSessionId cand = None"
    proof (cases "matchSessionId cand")
      case None then show ?thesis .
    next
      case (Some m)
      from matchSessionId_Some[OF Some] a show ?thesis by blast
    qed
  qed
qed

text \<open>The SQLite command prints \<open>ses_ab12\<close> and the probe answers with it.\<close>

theorem C4_probe_returns_pattern_match_witness:
  "GET_opencode_session ascii (Some (js ''u1'')) exampleDb
       (\<lambda>c. case c of
               SqliteExec \<Rightarrow> Inr (Ends (stdoutChunks (asciiBytes ''ses_ab12'' @ [0x0A])))
             | FindExec \<Rightarrow> Inl EngineError)
       (js ''w1'')
     = (Settled (Json 200 (Some (js ''ses_ab12''))), [ExecCalled SqliteExec])"
proof -
  have f: "findSessionId ascii
             (\<lambda>c. case c of
                     SqliteExec \<Rightarrow> Inr (Ends (stdoutChunks (asciiBytes ''ses_ab12'' @ [0x0A])))
                   | FindExec \<Rightarrow> Inl EngineError)
           = (Settled (Inr (js ''ses_ab12'')), [ExecCalled SqliteExec])"
    by (simp add: findSessionId_def example_defs)
  have i: "isSessionId (js ''ses_ab12'')"
    by (simp add: isSessionId_def startsWith_def js_def isTokenChar_def)
  show ?thesis
    using C4_probe_returns_pattern_match[OF example_w1 f] i by simp
qed

text \<open>
  C4 as stated fails: the extracted string \<open>ses_abc-def\<close> does not have the form, and the
  probe answers with its part \<open>ses_abc\<close>.
\<close>

theorem C4_substring_returned:
  "\<not> isSessionId (js ''ses_abc-def'')
   \<and> GET_opencode_session ascii (Some (js ''u1'')) exampleDb
       (\<lambda>c. case c of
               SqliteExec \<Rightarrow> Inr (Ends (stdoutChunks (asciiBytes ''ses_abc-def'' @ [0x0A])))
             | FindExec \<Rightarrow> Inl EngineError)
       (js ''w1'')
     = (Settled (Json 200 (Some (js ''ses_abc''))), [ExecCalled SqliteExec])"
  by (simp add: GET_opencode_session_def findSessionId_def isSessionId_def example_defs)

section \<open>Linking environments to a workspace\<close>

text \<open>
  The ownership check compares two counts. With the ids of the environment table distinct
  (the id is the table's key), the counts agree exactly when the requested ids are
  distinct and each one is an environment of the user.
\<close>

lemma findMany_ids_subset:
  "e_id ` set (findManyEnvironments d ids uid) = {i \<in> set ids. \<exists>e\<in>set (environments d). e_id e = i \<and> e_userId e = uid}"
  by (auto simp: findManyEnvironments_def)

lemma findMany_distinct:
  "distinct (map e_id (environments d)) \<Longrightarrow> distinct (map e_id (findManyEnvironments d ids uid))"
  by (simp add: findManyEnvironments_def distinct_map_filter)

lemma findMany_length:
  assumes "distinct (map e_id (environments d))"
  shows "length (findManyEnvironments d ids uid) = length ids \<longleftrightarrow>
         distinct ids \<and> (\<forall>i\<in>set ids. \<exists>e\<in>set (environments d). e_id e = i \<and> e_userId e = uid)"
proof -
  let ?F = "findManyEnvironments d ids uid"
  let ?S = "e_id ` set ?F"
  have len: "length ?F = card ?S"
    using findMany_distinct[OF assms, of ids uid]
    by (metis distinct_card length_map set_map)
  have sub: "?S \<subseteq> set ids" by (auto simp: findMany_ids_subset)
  have le1: "card ?S \<le> card (set ids)" using sub by (simp add: card_mono)
  have le2: "card (set ids) \<le> length ids" by (rule card_length)
  show ?thesis
  proof
    assume eq: "length ?F = length ids"
    then have c: "card (set ids) = length ids" and c2: "card ?S = card (set ids)"
      using len le1 le2 by linarith+
    have "distinct ids" using c by (simp add: card_distinct)
    moreover have "?S = set ids" using sub c2 by (simp add: card_subset_eq)
    then have "\<forall>i\<in>set ids. \<exists>e\<in>set (environments d). e_id e = i \<and> e_userId e = uid"
      unfolding findMany_ids_subset by blast
    ultimately show "distinct ids \<and> (\<forall>i\<in>set ids. \<exists>e\<in>set (environments d). e_id e = i \<and> e_userId e = uid)"
      by simp
  next
    assume a: "distinct ids \<and> (\<forall>i\<in>set ids. \<exists>e\<in>set (environments d). e_id e = i \<and> e_userId e = uid)"
    then have "?S = set ids" unfolding findMany_ids_subset by blast
    then show "length ?F = length ids"
      using len a by (simp add: distinct_card)
  qed
qed

lemma findMany_after_links [simp]:
  "findManyEnvironments (d\<lparr>workspaceEnvironments := ls\<rparr>) ids uid = findManyEnvironments d ids uid"
  by (simp add: findManyEnvironments_def)

lemma findMany_Nil [simp]: "findManyEnvironments d [] uid = []"
  by (simp add: findManyEnvironments_def)

text \<open>The route for the owner of the workspace: rejected, or carried out.\<close>

lemma PUT_links_rejected:
  assumes "findWorkspace d wid uid = Some w"
    and "length (findManyEnvironments d ids uid) \<noteq> length ids"
  shows "PUT_workspace_environments sync (Some uid) d wid (EnvironmentIds ids) =
     (ErrorJson 403 ''One or more environments not found or not owned by user'', d, [])"
proof -
  have "ids \<noteq> []" using assms(2) by auto
  then show ?thesis using assms by (simp add: PUT_workspace_environments_def)
qed

lemma PUT_links_accepted:
  assumes "findWorkspace d wid uid = Some w"
    and "length (findManyEnvironments d ids uid) = length ids"
  shows "PUT_workspace_environments sync (Some uid) d wid (EnvironmentIds ids) =
     (Json 200 (map envView (findManyEnvironments d ids uid)),
      d\<lparr>workspaceEnvironments :=
          filter (\<lambda>l. workspaceId l \<noteq> wid) (workspaceEnvironments d)
          @ map (\<lambda>envId. \<lparr>workspaceId = wid, environmentId = envId\<rparr>) ids\<rparr>,
      trySync sync wid (findManyEnvironments d ids uid))"
  using assms
  by (cases "ids = []")
     (simp_all add: PUT_workspace_environments_def Let_def createManyLinks_def deleteManyLinks_def)

text \<open>The definitions that evaluate the example store.\<close>

lemmas store_defs = exampleDb_def envA_def envB_def envC_def js_def findWorkspace_def
  findManyEnvironments_def

lemma example_distinct: "distinct (map e_id (environments exampleDb))"
  by (simp add: store_defs)

text \<open>
  C7. When a requested id is not an environment of the workspace's owner (it does not
  exist or is another user's), the update answers 403 and nothing else happens: the store
  is returned as it was, so no link is deleted or inserted, and no sync is run.
\<close>

theorem C7_rejected_before_any_change:
  assumes "findWorkspace d wid uid = Some w"
    and "distinct (map e_id (environments d))"
    and "\<exists>i\<in>set ids. \<not> (\<exists>e\<in>set (environments d). e_id e = i \<and> e_userId e = uid)"
  shows "PUT_workspace_environments sync (Some uid) d wid (EnvironmentIds ids) =
     (ErrorJson 403 ''One or more environments not found or not owned by user'', d, [])"
proof -
  have "length (findManyEnvironments d ids uid) \<noteq> length ids"
    using assms(3) findMany_length[OF assms(2), of ids uid] by blast
  then show ?thesis by (rule PUT_links_rejected[OF assms(1)])
qed

text \<open>\<open>envC\<close> is another user's: the request for \<open>envB\<close> and \<open>envC\<close> is rejected whole.\<close>

theorem C7_rejected_before_any_change_witness:
  "PUT_workspace_environments (\<lambda>wid envs. None) (Some (js ''u1'')) exampleDb (js ''w1'')
     (EnvironmentIds [js ''envB'', js ''envC'']) =
     (ErrorJson 403 ''One or more environments not found or not owned by user'', exampleDb, [])"
proof -
  have "\<exists>i\<in>set [js ''envB'', js ''envC''].
          \<not> (\<exists>e\<in>set (environments exampleDb). e_id e = i \<and> e_userId e = js ''u1'')"
    by (simp add: store_defs)
  then show ?thesis
    by (rule C7_rejected_before_any_change[OF example_w1 example_distinct])
qed

text \<open>
  C10. A request that names an id more than once is rejected with 403 before any change
  of the links; and the links of the workspace after an accepted request are distinct
  rows.
\<close>

theorem C10_duplicate_ids_rejected:
  assumes "findWorkspace d wid uid = Some w"
    and "distinct (map e_id (environments d))"
  shows "(\<not> distinct ids \<longrightarrow>
            PUT_workspace_environments sync (Some uid) d wid (EnvironmentIds ids) =
              (ErrorJson 403 ''One or more environments not found or not owned by user'', d, []))
       \<and> (\<forall>out d' evs.
            PUT_workspace_environments sync (Some uid) d wid (EnvironmentIds ids) = (Json 200 out, d', evs)
            \<longrightarrow> distinct (filter (\<lambda>l. workspaceId l = wid) (workspaceEnvironments d')))"
proof (intro conjI impI allI)
  assume "\<not> distinct ids"
  then have "length (findManyEnvironments d ids uid) \<noteq> length ids"
    using findMany_length[OF assms(2), of ids uid] by blast
  then show "PUT_workspace_environments sync (Some uid) d wid (EnvironmentIds ids) =
              (ErrorJson 403 ''One or more environments not found or not owned by user'', d, [])"
    by (rule PUT_links_rejected[OF assms(1)])
next
  fix out d' evs
  assume ok: "PUT_workspace_environments sync (Some uid) d wid (EnvironmentIds ids) = (Json 200 out, d', evs)"
  have len: "length (findManyEnvironments d ids uid) = length ids"
  proof (rule ccontr)
    assume "length (findManyEnvironments d ids uid) \<noteq> length ids"
    from PUT_links_rejected[OF assms(1) this] ok show False by simp
  qed
  then have dis: "distinct ids" using findMany_length[OF assms(2), of ids uid] by blast
  have d': "workspaceEnvironments d' =
          filter (\<lambda>l. workspaceId l \<noteq> wid) (workspaceEnvironments d)
          @ map (\<lambda>envId. \<lparr>workspaceId = wid, environmentId = envId\<rparr>) ids"
    using PUT_links_accepted[OF assms(1) len, of sync] ok by auto
  have "filter (\<lambda>l. workspaceId l = wid) (workspaceEnvironments d')
        = map (\<lambda>envId. \<lparr>workspaceId = wid, environmentId = envId\<rparr>) ids"
    unfolding d' by (simp add: filter_empty_conv o_def)
  moreover have "distinct (map (\<lambda>envId. \<lparr>workspaceId = wid, environmentId = envId\<rparr>) ids)"
    using dis by (simp add: distinct_map inj_on_def)
  ultimately show "distinct (filter (\<lambda>l. workspaceId l = wid) (workspaceEnvironments d'))"
    by simp
qed

text \<open>\<open>envB\<close> twice is rejected; \<open>envB\<close> once is accepted and the links of \<open>w1\<close> are distinct.\<close>

theorem C10_duplicate_ids_rejected_witness:
  "PUT_workspace_environments (\<lambda>wid envs. None) (Some (js ''u1'')) exampleDb (js ''w1'')
     (EnvironmentIds [js ''envB'', js ''envB'']) =
     (ErrorJson 403 ''One or more environments not found or not owned by user'', exampleDb, [])
   \<and> distinct (filter (\<lambda>l. workspaceId l = js ''w1'')
        (workspaceEnvironments (fst (snd (PUT_workspace_environments (\<lambda>wid envs. None)
           (Some (js ''u1'')) exampleDb (js ''w1'') (EnvironmentIds [js ''envB''])))))) "
proof -
  have nd: "\<not> distinct [js ''envB'', js ''envB'']" by simp
  have ok: "PUT_workspace_environments (\<lambda>wid envs. None) (Some (js ''u1'')) exampleDb (js ''w1'')
         (EnvironmentIds [js ''envB'']) =
       (Json 200 [envView envB],
        exampleDb\<lparr>workspaceEnvironments :=
           [\<lparr>workspaceId = js ''w2'', environmentId = js ''envA''\<rparr>,
            \<lparr>workspaceId = js ''w1'', environmentId = js ''envB''\<rparr>]\<rparr>,
        [SyncCalled (js ''w1'') [envB]])"
    by (simp add: PUT_workspace_environments_def Let_def createManyLinks_def deleteManyLinks_def
          trySync_def store_defs)
  show ?thesis
    using C10_duplicate_ids_rejected[OF example_w1 example_distinct, of "[js ''envB'', js ''envB'']" "\<lambda>wid envs. None"]
      C10_duplicate_ids_rejected[OF example_w1 example_distinct, of "[js ''envB'']" "\<lambda>wid envs. None"]
      nd ok
    by simp
qed

lemma trySync_cases:
  "trySync sync wid envs = [SyncCalled wid envs]
   \<or> (\<exists>e. sync wid envs = Some e \<and> trySync sync wid envs = [SyncCalled wid envs, ConsoleError e])"
  by (simp add: trySync_def split: option.splits)

text \<open>
  What an accepted update does. The links of the workspace become exactly the requested
  ids, in request order: every former link of the workspace is gone, the links of other
  workspaces and the other tables are untouched. The sync is called once, with the rows
  the second \<open>findMany\<close> returns: the requested environments, each once, as the
  environment table orders them.
\<close>

lemma PUT_links_accepted_effect:
  assumes "PUT_workspace_environments sync (Some uid) d wid (EnvironmentIds ids) = (Json 200 out, d', evs)"
    and "distinct (map e_id (environments d))"
  shows "workspaceEnvironments d' =
           filter (\<lambda>l. workspaceId l \<noteq> wid) (workspaceEnvironments d)
           @ map (\<lambda>envId. \<lparr>workspaceId = wid, environmentId = envId\<rparr>) ids
       \<and> workspaces d' = workspaces d \<and> environments d' = environments d
       \<and> (evs = [SyncCalled wid (filter (\<lambda>e. e_id e \<in> set ids) (environments d))]
          \<or> (\<exists>e. evs = [SyncCalled wid (filter (\<lambda>e. e_id e \<in> set ids) (environments d)),
                        ConsoleError e]))
       \<and> map e_id (filter (\<lambda>e. e_id e \<in> set ids) (environments d))
           = filter (\<lambda>i. i \<in> set ids) (map e_id (environments d))
       \<and> set (filter (\<lambda>i. i \<in> set ids) (map e_id (environments d))) = set ids
       \<and> distinct ids"
proof -
  obtain w where w: "findWorkspace d wid uid = Some w"
    using assms(1) by (cases "findWorkspace d wid uid") (simp_all add: PUT_workspace_environments_def)
  have len: "length (findManyEnvironments d ids uid) = length ids"
  proof (rule ccontr)
    assume "length (findManyEnvironments d ids uid) \<noteq> length ids"
    from PUT_links_rejected[OF w this] assms(1) show False by simp
  qed
  then have dis: "distinct ids"
    and own: "\<forall>i\<in>set ids. \<exists>e\<in>set (environments d). e_id e = i \<and> e_userId e = uid"
    using findMany_length[OF assms(2), of ids uid] by blast+
  have "inj_on e_id (set (environments d))"
    using assms(2) by (simp add: distinct_map)
  then have uniq: "\<And>e e'. e \<in> set (environments d) \<Longrightarrow> e' \<in> set (environments d)
              \<Longrightarrow> e_id e = e_id e' \<Longrightarrow> e = e'"
    by (rule inj_onD)
  have same: "findManyEnvironments d ids uid = filter (\<lambda>e. e_id e \<in> set ids) (environments d)"
    unfolding findManyEnvironments_def
  proof (rule filter_cong[OF refl])
    fix e assume e: "e \<in> set (environments d)"
    show "(e_id e \<in> set ids \<and> e_userId e = uid) = (e_id e \<in> set ids)"
    proof (cases "e_id e \<in> set ids")
      case True
      from bspec[OF own True]
      obtain e' where m: "e' \<in> set (environments d)" and i: "e_id e' = e_id e"
        and u: "e_userId e' = uid"
        by (elim bexE conjE)
      have "e = e'" by (rule uniq[OF e m i[symmetric]])
      then have "e_userId e = uid" using u by (simp only:)
      with True show ?thesis by (simp only: simp_thms)
    next
      case False then show ?thesis by simp
    qed
  qed
  have res: "(Json 200 out, d', evs) =
     (Json 200 (map envView (findManyEnvironments d ids uid)),
      d\<lparr>workspaceEnvironments :=
          filter (\<lambda>l. workspaceId l \<noteq> wid) (workspaceEnvironments d)
          @ map (\<lambda>envId. \<lparr>workspaceId = wid, environmentId = envId\<rparr>) ids\<rparr>,
      trySync sync wid (findManyEnvironments d ids uid))"
    using PUT_links_accepted[OF w len, of sync] assms(1) by simp
  then have d': "d' = d\<lparr>workspaceEnvironments :=
          filter (\<lambda>l. workspaceId l \<noteq> wid) (workspaceEnvironments d)
          @ map (\<lambda>envId. \<lparr>workspaceId = wid, environmentId = envId\<rparr>) ids\<rparr>"
    and evs: "evs = trySync sync wid (filter (\<lambda>e. e_id e \<in> set ids) (environments d))"
    by (simp_all add: same)
  have ev: "evs = [SyncCalled wid (filter (\<lambda>e. e_id e \<in> set ids) (environments d))]
          \<or> (\<exists>e. evs = [SyncCalled wid (filter (\<lambda>e. e_id e \<in> set ids) (environments d)),
                        ConsoleError e])"
    unfolding evs using trySync_cases[of sync wid] by blast
  have m: "map e_id (filter (\<lambda>e. e_id e \<in> set ids) (environments d))
           = filter (\<lambda>i. i \<in> set ids) (map e_id (environments d))"
    by (simp add: filter_map o_def)
  have st: "set (filter (\<lambda>i. i \<in> set ids) (map e_id (environments d))) = set ids"
  proof
    show "set (filter (\<lambda>i. i \<in> set ids) (map e_id (environments d))) \<subseteq> set ids"
      by auto
    show "set ids \<subseteq> set (filter (\<lambda>i. i \<in> set ids) (map e_id (environments d)))"
    proof
      fix i assume i: "i \<in> set ids"
      with own obtain e where "e \<in> set (environments d)" "e_id e = i" by blast
      with i show "i \<in> set (filter (\<lambda>i. i \<in> set ids) (map e_id (environments d)))"
        by (simp add: image_iff) blast
    qed
  qed
  have a1: "workspaceEnvironments d' =
           filter (\<lambda>l. workspaceId l \<noteq> wid) (workspaceEnvironments d)
           @ map (\<lambda>envId. \<lparr>workspaceId = wid, environmentId = envId\<rparr>) ids"
    and a2: "workspaces d' = workspaces d" and a3: "environments d' = environments d"
    by (simp_all add: d')
  show ?thesis
    by (intro conjI) (rule a1 a2 a3 ev m st dis)+
qed

text \<open>
  C6 (the code differs). The dialog that sends the request keeps the ids in the order of
  selection and tells the user that variables \<open>are merged in the order selected\<close>. For the
  request that names \<open>envB\<close> before \<open>envA\<close> the route answers 200 and replaces the links
  of \<open>w1\<close> wholesale, in request order; but the sync receives the rows of the second
  \<open>findMany\<close>, \<open>envA\<close> before \<open>envB\<close>, not the order of the request.
\<close>

theorem C6_sync_order_not_request_order:
  "PUT_workspace_environments (\<lambda>wid envs. None) (Some (js ''u1'')) exampleDb (js ''w1'')
       (EnvironmentIds [js ''envB'', js ''envA''])
     = (Json 200 [envView envA, envView envB],
        exampleDb\<lparr>workspaceEnvironments :=
           [\<lparr>workspaceId = js ''w2'', environmentId = js ''envA''\<rparr>,
            \<lparr>workspaceId = js ''w1'', environmentId = js ''envB''\<rparr>,
            \<lparr>workspaceId = js ''w1'', environmentId = js ''envA''\<rparr>]\<rparr>,
        [SyncCalled (js ''w1'') [envA, envB]])
   \<and> map e_id [envA, envB] \<noteq> [js ''envB'', js ''envA'']"
  by (simp add: PUT_workspace_environments_def Let_def createManyLinks_def deleteManyLinks_def
          trySync_def store_defs)

section \<open>Sync errors\<close>












section \<open>Readers of an invalid variables payload\<close>

text \<open>
  C9 (the code differs). On a payload that \<^verbatim>\<open>JSON.parse\<close> rejects and that is not the
  empty string, \<open>getVariableCount\<close> gives 0 and \<open>parseVariables\<close> the empty list, but the
  count on the environment's card throws the error of \<^verbatim>\<open>JSON.parse\<close>.
\<close>

theorem C9_card_count_throws:
  assumes "parse (e_variables env) = Inl err" and "e_variables env \<noteq> []"
  shows "cardVariableCount parse env = Inl err
       \<and> getVariableCount parse env = 0
       \<and> parseVariables parse toStr (e_variables env) = []"
  using assms
  by (simp add: cardVariableCount_def getVariableCount_def parseVariables_def)

text \<open>The payload \<open>{bad\<close>, with a parser that rejects it.\<close>

theorem C9_card_count_throws_witness:
  "cardVariableCount (\<lambda>s. if s = js ''{}'' then Inr (Obj []) else Inl SyntaxError)
       (envA\<lparr>e_variables := js ''{bad''\<rparr>) = Inl SyntaxError
   \<and> getVariableCount (\<lambda>s. if s = js ''{}'' then Inr (Obj []) else Inl SyntaxError)
       (envA\<lparr>e_variables := js ''{bad''\<rparr>) = 0
   \<and> parseVariables (\<lambda>s. if s = js ''{}'' then Inr (Obj []) else Inl SyntaxError) (\<lambda>v. [])
       (js ''{bad'') = []"
  using C9_card_count_throws[of "\<lambda>s. if s = js ''{}'' then Inr (Obj []) else Inl SyntaxError"
      "envA\<lparr>e_variables := js ''{bad''\<rparr>" SyntaxError "\<lambda>v. []"]
  by (simp add: js_def)

section \<open>The merge\<close>

lemma merge_snoc: "merge (envs @ [env]) = merge envs ++ vs_variables env"
  by (simp add: merge_def)

text \<open>
  C5. The merge of the empty list is the empty mapping, and the merged value of a key is
  its value in the last environment of the given order that defines it (none when no
  environment defines it).
\<close>

theorem C5_last_writer_wins:
  "merge [] = Map.empty
   \<and> merge envs k =
       (case find (\<lambda>env. vs_variables env k \<noteq> None) (rev envs) of
          None \<Rightarrow> None
        | Some env \<Rightarrow> vs_variables env k)"
proof
  show "merge [] = Map.empty" by (simp add: merge_def)
  show "merge envs k =
       (case find (\<lambda>env. vs_variables env k \<noteq> None) (rev envs) of
          None \<Rightarrow> None
        | Some env \<Rightarrow> vs_variables env k)"
  proof (induction envs rule: rev_induct)
    case Nil
    then show ?case by (simp add: merge_def)
  next
    case (snoc env envs)
    then show ?case
      by (cases "vs_variables env k") (simp_all add: merge_snoc map_add_def)
  qed
qed

text \<open>
  The spec's example: \<open>A = {X: 1}\<close>, \<open>B = {X: 2, Y: 9}\<close>; in the order A, B the value of
  \<open>X\<close> is 2, in the order B, A it is 1, and \<open>Y\<close> is 9.
\<close>

theorem C5_last_writer_wins_witness:
  "merge [\<lparr>vs_name = js ''A'', vs_variables = [js ''X'' \<mapsto> js ''1'']\<rparr>,
          \<lparr>vs_name = js ''B'', vs_variables = [js ''X'' \<mapsto> js ''2'', js ''Y'' \<mapsto> js ''9'']\<rparr>] (js ''X'')
     = Some (js ''2'')
   \<and> merge [\<lparr>vs_name = js ''B'', vs_variables = [js ''X'' \<mapsto> js ''2'', js ''Y'' \<mapsto> js ''9'']\<rparr>,
            \<lparr>vs_name = js ''A'', vs_variables = [js ''X'' \<mapsto> js ''1'']\<rparr>] (js ''X'')
     = Some (js ''1'')
   \<and> merge [\<lparr>vs_name = js ''B'', vs_variables = [js ''X'' \<mapsto> js ''2'', js ''Y'' \<mapsto> js ''9'']\<rparr>,
            \<lparr>vs_name = js ''A'', vs_variables = [js ''X'' \<mapsto> js ''1'']\<rparr>] (js ''Y'')
     = Some (js ''9'')"
  by (simp add: C5_last_writer_wins[THEN conjunct2] js_def)

end
